theory Spec2Isabelle
  imports Complex_Main
begin

section \<open>Floating-point values of the arrays\<close>

text \<open>
  The arrays of \<^verbatim>\<open>mom6_process.py\<close> and \<^verbatim>\<open>mom6_regional_tercile.py\<close> hold
  64-bit floats. A value is modelled as a real number, an infinity with its sign
  (\<open>Infty True\<close> is \<open>+inf\<close>) or NaN, the missing value of the gridded data. Rounding,
  overflow and the sign of zero are not modelled: finite arithmetic is exact.
  Warnings are switched off by the source (\<^verbatim>\<open>warnings.simplefilter("ignore")\<close>), so
  an invalid operation returns NaN or an infinity and raises nothing.
\<close>

datatype fl = NaN | Infty bool | Fin real

fun isnan :: "fl \<Rightarrow> bool" where
  "isnan NaN = True"
| "isnan (Infty s) = False"
| "isnan (Fin x) = False"

fun fneg :: "fl \<Rightarrow> fl" where
  "fneg NaN = NaN"
| "fneg (Infty s) = Infty (\<not> s)"
| "fneg (Fin x) = Fin (- x)"

fun fadd :: "fl \<Rightarrow> fl \<Rightarrow> fl" where
  "fadd (Fin x) (Fin y) = Fin (x + y)"
| "fadd (Fin x) (Infty t) = Infty t"
| "fadd (Infty s) (Fin y) = Infty s"
| "fadd (Infty s) (Infty t) = (if s = t then Infty s else NaN)"
| "fadd NaN b = NaN"
| "fadd a NaN = NaN"

definition fsub :: "fl \<Rightarrow> fl \<Rightarrow> fl" where
  "fsub a b = fadd a (fneg b)"

fun fmul :: "fl \<Rightarrow> fl \<Rightarrow> fl" where
  "fmul (Fin x) (Fin y) = Fin (x * y)"
| "fmul (Fin x) (Infty t) = (if x = 0 then NaN else Infty (t = (0 < x)))"
| "fmul (Infty s) (Fin y) = (if y = 0 then NaN else Infty (s = (0 < y)))"
| "fmul (Infty s) (Infty t) = Infty (s = t)"
| "fmul NaN b = NaN"
| "fmul a NaN = NaN"

fun fdiv :: "fl \<Rightarrow> fl \<Rightarrow> fl" where
  "fdiv (Fin x) (Fin y) =
     (if y = 0 then (if x = 0 then NaN else Infty (0 < x)) else Fin (x / y))"
| "fdiv (Fin x) (Infty t) = Fin 0"
| "fdiv (Infty s) (Fin y) = Infty (s = (0 \<le> y))"
| "fdiv (Infty s) (Infty t) = NaN"
| "fdiv NaN b = NaN"
| "fdiv a NaN = NaN"

fun fsqrt :: "fl \<Rightarrow> fl" where
  "fsqrt NaN = NaN"
| "fsqrt (Infty s) = (if s then Infty True else NaN)"
| "fsqrt (Fin x) = (if x < 0 then NaN else Fin (sqrt x))"

fun fabs :: "fl \<Rightarrow> fl" where
  "fabs NaN = NaN"
| "fabs (Infty s) = Infty True"
| "fabs (Fin x) = Fin \<bar>x\<bar>"

fun fsign :: "fl \<Rightarrow> fl" where
  "fsign NaN = NaN"
| "fsign (Infty s) = (if s then Fin 1 else Fin (- 1))"
| "fsign (Fin x) = Fin (sgn x)"

text \<open>Comparison \<open>a < b\<close>; every comparison with NaN is false.\<close>

fun flt :: "fl \<Rightarrow> fl \<Rightarrow> bool" where
  "flt (Fin x) (Fin y) = (x < y)"
| "flt (Fin x) (Infty t) = t"
| "flt (Infty s) (Fin y) = (\<not> s)"
| "flt (Infty s) (Infty t) = (\<not> s \<and> t)"
| "flt NaN b = False"
| "flt a NaN = False"

text \<open>Comparison \<open>a <= b\<close>.\<close>

fun fle :: "fl \<Rightarrow> fl \<Rightarrow> bool" where
  "fle (Fin x) (Fin y) = (x \<le> y)"
| "fle (Fin x) (Infty t) = t"
| "fle (Infty s) (Fin y) = (\<not> s)"
| "fle (Infty s) (Infty t) = (if s then t else True)"
| "fle NaN b = False"
| "fle a NaN = False"

text \<open>\<^verbatim>\<open>sum\<close> of an array, and the reductions that skip NaN (the default of xarray
  for floats: \<^verbatim>\<open>skipna=None\<close>).\<close>

definition fsum :: "fl list \<Rightarrow> fl" where
  "fsum xs = foldl fadd (Fin 0) xs"

definition dropna :: "fl list \<Rightarrow> fl list" where
  "dropna xs = filter (\<lambda>x. \<not> isnan x) xs"

definition nansum :: "fl list \<Rightarrow> fl" where
  "nansum xs = fsum (dropna xs)"

definition nanmean :: "fl list \<Rightarrow> fl" where
  "nanmean xs = (let ys = dropna xs in
     if ys = [] then NaN else fdiv (fsum ys) (Fin (real (length ys))))"

text \<open>
  \<^verbatim>\<open>nanvar\<close> and \<^verbatim>\<open>nanstd\<close> of numpy with their \<^verbatim>\<open>ddof\<close> argument: the sum of the
  squared deviations from the mean of the values that are not NaN, divided by their
  count minus \<^verbatim>\<open>ddof\<close>; NaN when that divisor is not positive.
\<close>

definition nanvar :: "nat \<Rightarrow> fl list \<Rightarrow> fl" where
  "nanvar ddof xs = (let ys = dropna xs;
       avg = fdiv (fsum ys) (Fin (real (length ys)));
       dof = int (length ys) - int ddof
     in if dof \<le> 0 then NaN
        else fdiv (fsum (map (\<lambda>y. fmul (fsub y avg) (fsub y avg)) ys)) (Fin (real_of_int dof)))"

definition nanstd :: "nat \<Rightarrow> fl list \<Rightarrow> fl" where
  "nanstd ddof xs = fsqrt (nanvar ddof xs)"

section \<open>Ensemble distribution and tercile probabilities\<close>

text \<open>
  \<^verbatim>\<open>calculate_tercile_prob\<close> works elementwise in the grid cell and the lead window, so
  the model gives it for one cell and one window: \<open>members\<close> is the binned value of
  every ensemble member there. \<^verbatim>\<open>da_binned.mean('member')\<close> and
  \<^verbatim>\<open>da_binned.std('member')\<close> are called with the defaults of xarray, which skip NaN
  and use \<^verbatim>\<open>ddof=0\<close>.
\<close>

definition da_mean :: "fl list \<Rightarrow> fl" where
  "da_mean members = nanmean members"

definition da_std :: "fl list \<Rightarrow> fl" where
  "da_std members = nanstd 0 members"

text \<open>
  The standard normal distribution function (\<^verbatim>\<open>ndtr\<close> of scipy), as its power series
  around 0. The functions below take the distribution function as the parameter \<open>Phi\<close>.
\<close>

definition ndtr :: "real \<Rightarrow> real" where
  "ndtr z = 1 / 2 +
     (\<Sum>n. (- 1) ^ n * z ^ (2 * n + 1) / (2 ^ n * fact n * real (2 * n + 1))) / sqrt (2 * pi)"

text \<open>
  \<^verbatim>\<open>normal(loc=da_mean, scale=da_std).cdf(x)\<close>: scipy standardises the argument to
  \<open>(x - loc) / scale\<close>, returns NaN where the scale is not positive or the standardised
  argument is NaN, 1 at \<open>+inf\<close>, 0 at \<open>-inf\<close>, and the distribution function elsewhere.
\<close>

definition norm_cdf :: "(real \<Rightarrow> real) \<Rightarrow> fl \<Rightarrow> fl \<Rightarrow> fl \<Rightarrow> fl" where
  "norm_cdf Phi x loc scale = (let z = fdiv (fsub x loc) scale in
     if flt (Fin 0) scale
     then (case z of NaN \<Rightarrow> NaN | Infty s \<Rightarrow> (if s then Fin 1 else Fin 0) | Fin r \<Rightarrow> Fin (Phi r))
     else NaN)"

text \<open>The three probabilities, in the order of the \<^verbatim>\<open>tercile\<close> index \<open>[-1, 0, 1]\<close>.\<close>

definition tercile :: "real list" where
  "tercile = [- 1, 0, 1]"

definition tercile_prob :: "(real \<Rightarrow> real) \<Rightarrow> fl list \<Rightarrow> fl \<Rightarrow> fl \<Rightarrow> fl list" where
  "tercile_prob Phi members f_lowmid f_midhigh =
     (let da_low_tercile_prob = norm_cdf Phi f_lowmid (da_mean members) (da_std members);
          da_up_tercile_prob = fsub (Fin 1) (norm_cdf Phi f_midhigh (da_mean members) (da_std members));
          da_mid_tercile_prob = fsub (fsub (Fin 1) da_up_tercile_prob) da_low_tercile_prob
      in [da_low_tercile_prob, da_mid_tercile_prob, da_up_tercile_prob])"

text \<open>
  \<^verbatim>\<open>idxmax\<close> and \<^verbatim>\<open>max\<close> along the \<^verbatim>\<open>tercile\<close> dimension. Both skip NaN. The scan
  keeps the position and value of the largest entry seen so far and replaces it only by
  a strictly larger one, as \<^verbatim>\<open>argmax\<close> of numpy does; where every entry is NaN,
  \<^verbatim>\<open>idxmax\<close> gives its \<^verbatim>\<open>fill_value\<close> (NaN) and \<^verbatim>\<open>max\<close> gives NaN.
\<close>

fun nanargmax_from :: "nat \<Rightarrow> (nat \<times> fl) option \<Rightarrow> fl list \<Rightarrow> (nat \<times> fl) option" where
  "nanargmax_from i best [] = best"
| "nanargmax_from i best (p # ps) =
     nanargmax_from (Suc i)
       (if isnan p then best
        else (case best of None \<Rightarrow> Some (i, p)
              | Some (j, q) \<Rightarrow> (if flt q p then Some (i, p) else Some (j, q))))
       ps"

definition nanargmax :: "fl list \<Rightarrow> (nat \<times> fl) option" where
  "nanargmax ps = nanargmax_from 0 None ps"

definition idxmax :: "real list \<Rightarrow> fl list \<Rightarrow> fl" where
  "idxmax labels ps = (case nanargmax ps of None \<Rightarrow> NaN | Some (i, q) \<Rightarrow> Fin (labels ! i))"

definition nanmax :: "fl list \<Rightarrow> fl" where
  "nanmax ps = (case nanargmax ps of None \<Rightarrow> NaN | Some (i, q) \<Rightarrow> q)"

definition tercile_prob_max :: "fl list \<Rightarrow> fl" where
  "tercile_prob_max da_tercile_prob =
     fmul (idxmax tercile da_tercile_prob) (nanmax da_tercile_prob)"

text \<open>The test of the spec's testable property: the sum is 1.0 within 1e-9.\<close>

definition sums_to_one :: "fl list \<Rightarrow> bool" where
  "sums_to_one ps = fle (fabs (fsub (fsum ps) (Fin 1))) (Fin (1 / 10 ^ 9))"

text \<open>
  The two standard deviations the spec distinguishes, over the reals: the sum of the
  squared deviations from the mean divided by \<open>n\<close> (population) or by \<open>n - 1\<close> (sample).
\<close>

definition sum_sq_dev :: "real list \<Rightarrow> real" where
  "sum_sq_dev rs = (\<Sum>r\<leftarrow>rs. (r - sum_list rs / real (length rs))\<^sup>2)"

definition population_std :: "real list \<Rightarrow> real" where
  "population_std rs = sqrt (sum_sq_dev rs / real (length rs))"

definition sample_std :: "real list \<Rightarrow> real" where
  "sample_std rs = sqrt (sum_sq_dev rs / (real (length rs) - 1))"

section \<open>Lead-time binning\<close>

text \<open>
  \<^verbatim>\<open>groupby_bins('lead', lead_bins, labels=lead_bin_label, right=True).mean('lead')\<close>
  for one cell and one member: \<open>data\<close> pairs every lead coordinate with the value there.
  pandas cuts the lead axis into the intervals \<open>(edge[i], edge[i+1]]\<close>, open on the
  left and closed on the right, and refuses edges that do not increase; a lead in no
  interval belongs to no group. xarray refuses a binning in which no lead falls in any
  interval, averages each group skipping NaN, and gives NaN to a window whose group is
  empty. The windows are labelled \<open>0, 1, ...\<close> (\<^verbatim>\<open>np.arange(0, len(lead_bins) - 1)\<close>).
\<close>

datatype error = ValueError | KeyError | UnboundLocalError







section \<open>Selecting the forecast file\<close>

text \<open>Python's \<^verbatim>\<open>str\<close> of an integer, as the f-strings of the source format it.\<close>

definition digit_char :: "nat \<Rightarrow> char" where
  "digit_char d = ''0123456789'' ! d"

fun str_nat :: "nat \<Rightarrow> string" where
  "str_nat n = (if n < 10 then [digit_char n] else str_nat (n div 10) @ [digit_char (n mod 10)])"

declare str_nat.simps [simp del]

definition str_int :: "int \<Rightarrow> string" where
  "str_int i = (if i < 0 then CHR ''-'' # str_nat (nat (- i)) else str_nat (nat i))"

text \<open>Python's \<^verbatim>\<open>sub in s\<close> on strings: \<open>sub\<close> occurs in \<open>s\<close> as a contiguous part.\<close>

fun contains :: "string \<Rightarrow> string \<Rightarrow> bool" where
  "contains sub [] = (sub = [])"
| "contains sub (c # cs) = (take (length sub) (c # cs) = sub \<or> contains sub cs)"

record mom6_forecast =
  iyear :: int
  imonth :: int
  var :: string
  source :: string

text \<open>\<^verbatim>\<open>mom6_hindcast\<close>: \<^verbatim>\<open>range(3,13,3)\<close> is 3, 6, 9, 12.\<close>

definition mom6_hindcast :: "string \<Rightarrow> string list" where
  "mom6_hindcast hindcast_dir =
     (let tob_files = map (\<lambda>mon. ''tob_forecasts_i'' @ str_int mon @ ''.nc'') [3, 6, 9, 12];
          tos_files = map (\<lambda>mon. ''tos_forecasts_i'' @ str_int mon @ ''.nc'') [3, 6, 9, 12];
          hpoint_file_list = tob_files @ tos_files
      in map (\<lambda>file. hindcast_dir @ file) hpoint_file_list)"

text \<open>
  An opened dataset is known by the file it was opened from, the \<^verbatim>\<open>init\<close> label
  selected in it, and whether the static field was merged into it. The files are taken
  to exist and to hold the selected initialization.
\<close>

record dataset =
  ds_file :: string
  ds_init :: string
  ds_static :: bool

text \<open>
  One pass of the loop body of \<^verbatim>\<open>get_mom6\<close> (the same in both branches): \<open>ds\<close> is the
  local variable, \<open>None\<close> while it is unbound.
\<close>

definition select_file :: "mom6_forecast \<Rightarrow> dataset option \<Rightarrow> string \<Rightarrow> dataset option" where
  "select_file self ds file =
     (let iyear_flag = contains (''i'' @ str_int (iyear self)) file;
          imon_flag = contains (''i'' @ str_int (imonth self)) file;
          var_flag = contains (var self) file
      in if imon_flag \<and> var_flag
         then Some \<lparr>ds_file = file,
                    ds_init = str_int (iyear self) @ ''-'' @ str_int (imonth self),
                    ds_static = False\<rparr>
         else ds)"

text \<open>
  \<^verbatim>\<open>get_mom6\<close>. Reading \<open>ds\<close> while no pass has bound it raises Python's
  \<^verbatim>\<open>UnboundLocalError\<close>: in \<^verbatim>\<open>xr.merge([ds_static,ds])\<close> of the raw branch, in
  \<^verbatim>\<open>return ds\<close> otherwise (also when \<open>source\<close> is neither \<^verbatim>\<open>'raw'\<close> nor \<^verbatim>\<open>'regrid'\<close>).
\<close>

definition get_mom6 :: "mom6_forecast \<Rightarrow> error + dataset" where
  "get_mom6 self =
     (if source self = ''raw'' then
        (let mom6_dir = ''/Datasets.private/regional_mom6/hindcast/'';
             file_list = mom6_hindcast mom6_dir
         in case foldl (select_file self) None file_list of
              None \<Rightarrow> Inl UnboundLocalError
            | Some ds \<Rightarrow> Inr (ds\<lparr>ds_static := True\<rparr>))
      else if source self = ''regrid'' then
        (let mom6_dir = ''/Datasets.private/regional_mom6/hindcast/regrid/'';
             file_list = mom6_hindcast mom6_dir
         in case foldl (select_file self) None file_list of
              None \<Rightarrow> Inl UnboundLocalError
            | Some ds \<Rightarrow> Inr ds)
      else Inl UnboundLocalError)"

text \<open>The directory \<^verbatim>\<open>get_mom6\<close> lists for a source, and the files of the list that
  pass the test of the loop.\<close>

definition mom6_dir_of :: "string \<Rightarrow> string" where
  "mom6_dir_of src = (if src = ''raw'' then ''/Datasets.private/regional_mom6/hindcast/''
                      else ''/Datasets.private/regional_mom6/hindcast/regrid/'')"

definition matching_files :: "mom6_forecast \<Rightarrow> string list" where
  "matching_files self =
     filter (\<lambda>file. contains (''i'' @ str_int (imonth self)) file \<and> contains (var self) file)
            (mom6_hindcast (mom6_dir_of (source self)))"

section \<open>Climatological boundaries of the regions\<close>

text \<open>
  \<^verbatim>\<open>mom6_regional_tercile.py\<close> works elementwise in the lead, so the model fixes one
  lead. The variable \<open>da\<close> is then one field for every pooled (initialization, member)
  pair, in the order of \<^verbatim>\<open>stack(allens=('init','member'))\<close>: a field with the spatial
  dimensions (\<open>Grid\<close>, one value per cell) or without them (\<open>Scalar\<close>). A mask and the
  cell areas have one value per cell; a boolean mask holds 1 and 0. A product with a
  field that has no spatial dimensions broadcasts it over the cells.
\<close>

datatype field = Grid "fl list" | Scalar fl

text \<open>\<^verbatim>\<open>(da*ds_mask[region]*da_area).sum(dim=['xh','yh'])\<close>; the sum skips NaN.\<close>

fun weighted_sum :: "field \<Rightarrow> fl list \<Rightarrow> fl list \<Rightarrow> fl" where
  "weighted_sum (Grid vs) rmask area =
     nansum (map (\<lambda>(v, k, a). fmul (fmul v k) a) (zip vs (zip rmask area)))"
| "weighted_sum (Scalar v) rmask area =
     nansum (map (\<lambda>(k, a). fmul (fmul v k) a) (zip rmask area))"

text \<open>\<^verbatim>\<open>(ds_mask[region]*da_area).sum(dim=['xh','yh'])\<close>.\<close>

definition mask_area :: "fl list \<Rightarrow> fl list \<Rightarrow> fl" where
  "mask_area rmask area = nansum (map (\<lambda>(k, a). fmul k a) (zip rmask area))"

definition regional_mean :: "field \<Rightarrow> fl list \<Rightarrow> fl list \<Rightarrow> fl" where
  "regional_mean d rmask area = fdiv (weighted_sum d rmask area) (mask_area rmask area)"

text \<open>
  \<^verbatim>\<open>quantile([1./3.,2./3.], dim='allens')\<close>: xarray skips NaN, and numpy interpolates
  linearly between the two order statistics around the position \<open>q * (n - 1)\<close> of the
  sorted sample; a sample without a value gives NaN.
\<close>

fun finsort :: "fl \<Rightarrow> fl list \<Rightarrow> fl list" where
  "finsort x [] = [x]"
| "finsort x (y # ys) = (if fle x y then x # y # ys else y # finsort x ys)"

definition fsort :: "fl list \<Rightarrow> fl list" where
  "fsort xs = foldr finsort xs []"

definition lerp :: "fl \<Rightarrow> fl \<Rightarrow> real \<Rightarrow> fl" where
  "lerp a b t = (if 1 / 2 \<le> t then fsub b (fmul (fsub b a) (Fin (1 - t)))
                 else fadd a (fmul (fsub b a) (Fin t)))"

definition nanquantile :: "real \<Rightarrow> fl list \<Rightarrow> fl" where
  "nanquantile q xs = (let arr = fsort (dropna xs); n = length arr in
     if n = 0 then NaN
     else (let virtual_index = q * real (n - 1);
               previous = nat \<lfloor>virtual_index\<rfloor>;
               next = min (previous + 1) (n - 1);
               gamma = virtual_index - real previous
           in lerp (arr ! previous) (arr ! next) gamma))"

definition da_tercile :: "fl list \<Rightarrow> fl \<times> fl" where
  "da_tercile allens = (nanquantile (1 / 3) allens, nanquantile (2 / 3) allens)"

text \<open>
  The loop over the regions. Its state is the variables the body assigns and reads
  again: \<open>da\<close>, \<open>reg_tercile_list\<close> and \<open>reg_list\<close> (\<^verbatim>\<open>da_mask\<close> is assigned and never
  read). The body assigns the regional mean to \<open>da\<close> itself, so the next pass starts
  from it.
\<close>

record region_loop =
  da :: "field list"
  reg_tercile_list :: "(fl \<times> fl) list"
  reg_list :: "string list"

definition region_body :: "fl list \<Rightarrow> region_loop \<Rightarrow> string \<times> fl list \<Rightarrow> region_loop" where
  "region_body da_area st entry =
     (let region = fst entry; rmask = snd entry in
      if region \<noteq> ''areacello'' then
        (let means = map (\<lambda>d. regional_mean d rmask da_area) (da st)
         in \<lparr>da = map Scalar means,
             reg_tercile_list = reg_tercile_list st @ [da_tercile means],
             reg_list = reg_list st @ [region]\<rparr>)
      else st)"

text \<open>
  One file of the script: \<open>ds_mask\<close> is the mask dataset (its variables by name, in the
  order of its keys), \<open>da0\<close> is \<^verbatim>\<open>ds[varname]\<close>. The result is \<open>ds_tercile\<close>: for every
  region its \<open>f_lowmid\<close> and \<open>f_midhigh\<close>. A mask dataset without \<^verbatim>\<open>areacello\<close> raises
  \<^verbatim>\<open>KeyError\<close>, and \<^verbatim>\<open>xr.concat\<close> of an empty list raises \<^verbatim>\<open>ValueError\<close>.
\<close>

definition regional_tercile ::
  "(string \<times> fl list) list \<Rightarrow> field list \<Rightarrow> error + (string \<times> fl \<times> fl) list" where
  "regional_tercile ds_mask da0 =
     (case map_of ds_mask ''areacello'' of
        None \<Rightarrow> Inl KeyError
      | Some da_area \<Rightarrow>
          (let st = foldl (region_body da_area)
                      \<lparr>da = da0, reg_tercile_list = [], reg_list = []\<rparr> ds_mask
           in if reg_tercile_list st = [] then Inl ValueError
              else Inr (zip (reg_list st) (reg_tercile_list st))))"

text \<open>
  Well-formed inputs of the builder: a value that is a number (\<open>is_fin\<close>), a value
  that is a number or missing (\<open>fin_or_nan\<close>), a field of such values, and a region
  whose mask has such values and whose masked area does not sum to 0.
\<close>

fun is_fin :: "fl \<Rightarrow> bool" where
  "is_fin NaN = False"
| "is_fin (Infty s) = False"
| "is_fin (Fin x) = True"

fun fin_or_nan :: "fl \<Rightarrow> bool" where
  "fin_or_nan NaN = True"
| "fin_or_nan (Infty s) = False"
| "fin_or_nan (Fin x) = True"

fun field_ok :: "field \<Rightarrow> bool" where
  "field_ok (Grid vs) = list_all fin_or_nan vs"
| "field_ok (Scalar v) = is_fin v"

fun nonzero :: "fl \<Rightarrow> bool" where
  "nonzero NaN = False"
| "nonzero (Infty s) = False"
| "nonzero (Fin x) = (x \<noteq> 0)"

definition region_ok :: "fl list \<Rightarrow> string \<times> fl list \<Rightarrow> bool" where
  "region_ok da_area entry =
     (if fst entry = ''areacello'' then True
      else list_all fin_or_nan (snd entry) \<and> nonzero (mask_area (snd entry) da_area))"

text \<open>The linear-interpolation quantile of a sorted sample of real numbers.\<close>

definition quantile_sorted :: "real \<Rightarrow> real list \<Rightarrow> real" where
  "quantile_sorted q ys = (let h = q * real (length ys - 1); j = nat \<lfloor>h\<rfloor>
     in ys ! j + (ys ! (min (j + 1) (length ys - 1)) - ys ! j) * (h - real j))"

text \<open>What the loop of \<^verbatim>\<open>get_mom6\<close> tests on a file, what it binds \<open>ds\<close> to, and the file
  a result was opened from.\<close>

definition matches :: "mom6_forecast \<Rightarrow> string \<Rightarrow> bool" where
  "matches self f = (contains (''i'' @ str_int (imonth self)) f \<and> contains (var self) f)"

definition opened :: "mom6_forecast \<Rightarrow> string \<Rightarrow> dataset" where
  "opened self f = \<lparr>ds_file = f, ds_init = str_int (iyear self) @ ''-'' @ str_int (imonth self),
                    ds_static = False\<rparr>"

definition opened_file :: "error + dataset \<Rightarrow> error + string" where
  "opened_file r = map_sum id ds_file r"

text \<open>What every pass of the loop keeps: the fields of \<open>da\<close> stay well-formed and as
  many as before, and every pair of boundaries stored so far is ordered.\<close>

definition loop_inv :: "nat \<Rightarrow> region_loop \<Rightarrow> bool" where
  "loop_inv n st = (length (da st) = n \<and> list_all field_ok (da st)
     \<and> list_all (\<lambda>t. fle (fst t) (snd t)) (reg_tercile_list st))"

text \<open>
  The label of the first category, in the order lower (-1), middle (0), upper (1), whose
  probability is the maximum of the three.
\<close>

definition first_max_label :: "real \<Rightarrow> real \<Rightarrow> real \<Rightarrow> real" where
  "first_max_label l m u =
     (if l = max l (max m u) then - 1 else if m = max l (max m u) then 0 else 1)"

section \<open>Arithmetic on finite values\<close>

lemma dropna_Fin: "dropna (map Fin rs) = map Fin rs"
  by (induction rs) (simp_all add: dropna_def)

lemma foldl_fadd_Fin: "foldl fadd (Fin a) (map Fin rs) = Fin (a + sum_list rs)"
  by (induction rs arbitrary: a) (simp_all add: algebra_simps)

lemma fsum_Fin: "fsum (map Fin rs) = Fin (sum_list rs)"
  by (simp add: fsum_def foldl_fadd_Fin)


lemma sq_dev_map:
  "map (\<lambda>y. fmul (fsub y (Fin m)) (fsub y (Fin m))) (map Fin rs) = map Fin (map (\<lambda>r. (r - m)\<^sup>2) rs)"
  by (induction rs) (simp_all add: fsub_def power2_eq_square)

lemma nanvar_Fin:
  assumes "ddof < length rs"
  shows "nanvar ddof (map Fin rs) = Fin (sum_sq_dev rs / (real (length rs) - real ddof))"
proof -
  from assms have ne: "rs \<noteq> []" by auto
  define m where "m = sum_list rs / real (length rs)"
  have avg: "fdiv (fsum (map Fin rs)) (Fin (real (length rs))) = Fin m"
    using ne by (simp add: fsum_Fin m_def)
  have sq: "fsum (map (\<lambda>y. fmul (fsub y (Fin m)) (fsub y (Fin m))) (map Fin rs)) = Fin (sum_sq_dev rs)"
    unfolding sq_dev_map fsum_Fin by (simp add: sum_sq_dev_def m_def)
  have dof: "\<not> int (length rs) - int ddof \<le> 0" using assms by simp
  have r: "real_of_int (int (length rs) - int ddof) = real (length rs) - real ddof" by simp
  have nz: "real (length rs) - real ddof \<noteq> 0" using assms by simp
  have "nanvar ddof (map Fin rs) = fdiv (Fin (sum_sq_dev rs)) (Fin (real (length rs) - real ddof))"
    unfolding nanvar_def Let_def dropna_Fin length_map avg sq r using dof by simp
  then show ?thesis using nz by simp
qed

lemma sum_sq_dev_nonneg: "0 \<le> sum_sq_dev rs"
  unfolding sum_sq_dev_def by (rule sum_list_nonneg) auto

lemma da_std_Fin: "rs \<noteq> [] \<Longrightarrow> da_std (map Fin rs) = Fin (population_std rs)"
  using nanvar_Fin[of 0 rs] divide_nonneg_nonneg[OF sum_sq_dev_nonneg[of rs], of "real (length rs)"]
  by (simp add: da_std_def nanstd_def population_std_def not_less)

text \<open>
  In the exact arithmetic of the model equal members have the standard deviation 0. The
  floats of the code agree where the sum of the members and its quotient by their number
  are exact, as for members 2, 2, 2 and for ten members 5.0.
\<close>

lemma da_std_replicate: "da_std (replicate n (Fin c)) = (if n = 0 then NaN else Fin 0)"
proof (cases "n = 0")
  case True
  then show ?thesis by (simp add: da_std_def nanstd_def nanvar_def dropna_def)
next
  case False
  have "replicate n (Fin c) = map Fin (replicate n c)" by simp
  moreover have "sum_sq_dev (replicate n c) = 0"
    using False by (simp add: sum_sq_dev_def sum_list_replicate o_def)
  ultimately show ?thesis using False da_std_Fin[of "replicate n c"]
    by (simp add: population_std_def)
qed

lemma da_std_0_2: "da_std [Fin 0, Fin 2] = Fin 1"
  using da_std_Fin[of "[0, 2]"] by (simp add: population_std_def sum_sq_dev_def)

text \<open>A finite result of an operation has finite operands.\<close>

lemma fadd_Fin_D: "fadd a b = Fin v \<Longrightarrow> (\<exists>x y. a = Fin x \<and> b = Fin y)"
  by (cases a; cases b) (auto split: if_splits)

lemma foldl_fadd_Fin_D:
  "foldl fadd a ts = Fin v \<Longrightarrow> (\<exists>x. a = Fin x) \<and> (\<forall>t\<in>set ts. \<exists>r. t = Fin r)"
proof (induction ts arbitrary: a)
  case Nil
  then show ?case by simp
next
  case (Cons t ts)
  from Cons.prems have "foldl fadd (fadd a t) ts = Fin v" by simp
  from Cons.IH[OF this] obtain x where x: "fadd a t = Fin x"
    and rest: "\<forall>t\<in>set ts. \<exists>r. t = Fin r" by blast
  from fadd_Fin_D[OF x] rest show ?case by auto
qed

lemma fsum_Fin_D: "fsum ts = Fin v \<Longrightarrow> \<forall>t\<in>set ts. \<exists>r. t = Fin r"
  unfolding fsum_def using foldl_fadd_Fin_D by blast

lemma fdiv_Fin_D: "fdiv a (Fin d) = Fin v \<Longrightarrow> \<exists>x. a = Fin x"
  by (cases a) (auto split: if_splits)

lemma fmul_self_Fin_D: "fmul a a = Fin v \<Longrightarrow> \<exists>x. a = Fin x"
  by (cases a) auto

lemma fsub_Fin_D: "fsub a b = Fin v \<Longrightarrow> \<exists>x. a = Fin x"
  unfolding fsub_def using fadd_Fin_D by blast

lemma fsqrt_Fin_D: "fsqrt a = Fin v \<Longrightarrow> \<exists>x. a = Fin x"
  by (cases a) (auto split: if_splits)

lemma fle_not_nan: "fle a b \<Longrightarrow> \<not> isnan a \<and> \<not> isnan b"
  by (cases a; cases b) auto

text \<open>A finite variance comes from members that are all finite or missing.\<close>

lemma nanvar_Fin_D:
  assumes "nanvar ddof xs = Fin v"
  shows "\<exists>rs. dropna xs = map Fin rs \<and> ddof < length rs"
proof -
  define ys where "ys = dropna xs"
  define avg where "avg = fdiv (fsum ys) (Fin (real (length ys)))"
  define dof where "dof = int (length ys) - int ddof"
  have unf: "nanvar ddof xs = (if dof \<le> 0 then NaN
      else fdiv (fsum (map (\<lambda>y. fmul (fsub y avg) (fsub y avg)) ys)) (Fin (real_of_int dof)))"
    by (simp add: nanvar_def Let_def ys_def avg_def dof_def)
  from assms unf have pos: "\<not> dof \<le> 0" by (auto split: if_splits)
  with assms unf have "fdiv (fsum (map (\<lambda>y. fmul (fsub y avg) (fsub y avg)) ys)) (Fin (real_of_int dof)) = Fin v"
    by simp
  from fdiv_Fin_D[OF this] obtain S where "fsum (map (\<lambda>y. fmul (fsub y avg) (fsub y avg)) ys) = Fin S" ..
  from fsum_Fin_D[OF this] have "\<forall>y\<in>set ys. \<exists>r. fmul (fsub y avg) (fsub y avg) = Fin r" by simp
  then have "\<forall>y\<in>set ys. \<exists>r. y = Fin r"
    using fmul_self_Fin_D fsub_Fin_D by blast
  then obtain rs where rs: "ys = map Fin rs" by (auto simp: ex_map_conv[symmetric])
  moreover from pos rs have "ddof < length rs" by (simp add: dof_def)
  ultimately show ?thesis unfolding ys_def by blast
qed

lemma nanmean_dropna_Fin:
  "dropna xs = map Fin rs \<Longrightarrow> rs \<noteq> [] \<Longrightarrow> nanmean xs = Fin (sum_list rs / real (length rs))"
  by (simp add: nanmean_def fsum_Fin)

section \<open>The tercile probabilities\<close>

lemma norm_cdf_defined:
  assumes "\<not> isnan x" and "0 < s"
  shows "\<exists>p. norm_cdf Phi x (Fin m) (Fin s) = Fin p"
  using assms by (cases x) (simp_all add: norm_cdf_def fsub_def)

lemma tercile_prob_defined:
  assumes "\<not> isnan f_lowmid" and "\<not> isnan f_midhigh" and "da_std members = Fin s" and "0 < s"
  shows "\<exists>lower upper. tercile_prob Phi members f_lowmid f_midhigh
           = [Fin lower, Fin (1 - lower - upper), Fin upper]"
proof -
  from assms(3) obtain v where "nanvar 0 members = Fin v"
    unfolding da_std_def nanstd_def using fsqrt_Fin_D by blast
  from nanvar_Fin_D[OF this] obtain rs where rs: "dropna members = map Fin rs" "rs \<noteq> []" by auto
  define m where "m = sum_list rs / real (length rs)"
  have mean: "da_mean members = Fin m"
    unfolding da_mean_def m_def using rs by (rule nanmean_dropna_Fin)
  obtain p where p: "norm_cdf Phi f_lowmid (Fin m) (Fin s) = Fin p"
    using norm_cdf_defined[OF assms(1) assms(4)] by blast
  obtain q where q: "norm_cdf Phi f_midhigh (Fin m) (Fin s) = Fin q"
    using norm_cdf_defined[OF assms(2) assms(4)] by blast
  have "tercile_prob Phi members f_lowmid f_midhigh = [Fin p, Fin (1 - (1 - q) - p), Fin (1 - q)]"
    by (simp add: tercile_prob_def mean assms(3) p q fsub_def)
  moreover have "1 - (1 - q) - p = 1 - p - (1 - q)" by simp
  ultimately show ?thesis by metis
qed

lemma tercile_prob_zero_spread:
  "tercile_prob Phi (replicate n (Fin c)) f_lowmid f_midhigh = [NaN, NaN, NaN]"
  by (simp add: tercile_prob_def da_std_replicate norm_cdf_def fsub_def)

text \<open>
  C1 (as amended). For a cell and lead window whose boundaries satisfy
  \<open>f_lowmid <= f_midhigh\<close> and whose ensemble has a positive standard deviation, the
  three probabilities are numbers, the middle one is \<open>1 - lower - upper\<close>, and they sum
  to 1, so the sum is within 1e-9 of 1.0.
\<close>

theorem tercile_prob_sums_to_one:
  assumes "fle f_lowmid f_midhigh" and "da_std members = Fin s" and "0 < s"
  shows "\<exists>lower middle upper.
           tercile_prob Phi members f_lowmid f_midhigh = [Fin lower, Fin middle, Fin upper]
           \<and> middle = 1 - lower - upper
           \<and> lower + middle + upper = 1
           \<and> sums_to_one (tercile_prob Phi members f_lowmid f_midhigh)"
proof -
  from fle_not_nan[OF assms(1)] have nn: "\<not> isnan f_lowmid" "\<not> isnan f_midhigh" by auto
  from tercile_prob_defined[OF nn assms(2,3)] obtain lower upper where
    tp: "tercile_prob Phi members f_lowmid f_midhigh = [Fin lower, Fin (1 - lower - upper), Fin upper]"
    by blast
  have "sums_to_one [Fin lower, Fin (1 - lower - upper), Fin upper]"
    by (simp add: sums_to_one_def fsum_def fsub_def)
  with tp show ?thesis by auto
qed

theorem tercile_prob_sums_to_one_witness:
  "fle (Fin 0) (Fin 2) \<and> da_std [Fin 0, Fin 2] = Fin 1 \<and> (0::real) < 1
   \<and> sums_to_one (tercile_prob ndtr [Fin 0, Fin 2] (Fin 0) (Fin 2))"
proof -
  have l: "fle (Fin 0) (Fin 2)" by simp
  show ?thesis using tercile_prob_sums_to_one[OF l da_std_0_2, of ndtr] da_std_0_2 by simp
qed

text \<open>
  C1 as stated fails where the ensemble has no spread: three members all equal to 2
  with the boundaries 1 and 3 give three NaN, whose sum is not within 1e-9 of 1.0.
\<close>

theorem tercile_prob_sum_counterexample:
  "fle (Fin 1) (Fin 3)
   \<and> tercile_prob ndtr [Fin 2, Fin 2, Fin 2] (Fin 1) (Fin 3) = [NaN, NaN, NaN]
   \<and> \<not> sums_to_one (tercile_prob ndtr [Fin 2, Fin 2, Fin 2] (Fin 1) (Fin 3))"
proof -
  have "tercile_prob ndtr (replicate 3 (Fin 2)) (Fin 1) (Fin 3) = [NaN, NaN, NaN]"
    by (rule tercile_prob_zero_spread)
  moreover have "replicate 3 (Fin 2) = [Fin 2, Fin 2, Fin 2]" by (simp add: numeral_3_eq_3)
  ultimately show ?thesis by (simp add: sums_to_one_def fsum_def fsub_def)
qed

section \<open>The standard deviation of the ensemble\<close>

text \<open>
  C5 (as amended). The standard deviation across the members is the population
  standard deviation (divisor \<open>n\<close>). With two or more members the sample standard
  deviation is what \<^verbatim>\<open>ddof=1\<close> would give, and the squares of the two differ by the
  factor \<open>(n - 1) / n\<close>.
\<close>

theorem da_std_is_population_std:
  assumes "rs \<noteq> []"
  shows "da_std (map Fin rs) = Fin (population_std rs)
       \<and> (if 1 < length rs
          then nanstd 1 (map Fin rs) = Fin (sample_std rs)
             \<and> (population_std rs)\<^sup>2 * real (length rs) = (sample_std rs)\<^sup>2 * (real (length rs) - 1)
          else nanstd 1 (map Fin rs) = NaN)"
proof -
  have pop: "da_std (map Fin rs) = Fin (population_std rs)"
    using assms by (rule da_std_Fin)
  have S: "0 \<le> sum_sq_dev rs" by (rule sum_sq_dev_nonneg)
  show ?thesis
  proof (cases "1 < length rs")
    case True
    then have n1: "0 < real (length rs) - 1" by simp
    have "nanvar 1 (map Fin rs) = Fin (sum_sq_dev rs / (real (length rs) - 1))"
      using nanvar_Fin[of 1 rs] True by simp
    moreover have "0 \<le> sum_sq_dev rs / (real (length rs) - 1)"
      using S n1 by simp
    ultimately have samp: "nanstd 1 (map Fin rs) = Fin (sample_std rs)"
      by (simp add: nanstd_def sample_std_def not_less)
    have "(population_std rs)\<^sup>2 = sum_sq_dev rs / real (length rs)"
      unfolding population_std_def using S by simp
    moreover have "(sample_std rs)\<^sup>2 = sum_sq_dev rs / (real (length rs) - 1)"
      unfolding sample_std_def using S n1 by simp
    ultimately have "(population_std rs)\<^sup>2 * real (length rs) = (sample_std rs)\<^sup>2 * (real (length rs) - 1)"
      using True n1 assms by simp
    with pop samp True show ?thesis by simp
  next
    case False
    with assms have "length rs = 1" by (cases rs) auto
    then have "nanstd 1 (map Fin rs) = NaN"
      by (simp add: nanstd_def nanvar_def dropna_Fin)
    with pop False show ?thesis by simp
  qed
qed

theorem da_std_is_population_std_witness:
  "[0, 2] \<noteq> ([] :: real list) \<and> da_std [Fin 0, Fin 2] = Fin 1 \<and> population_std [0, 2] = 1
   \<and> nanstd 1 [Fin 0, Fin 2] = Fin (sqrt 2)"
  using da_std_is_population_std[of "[0, 2]"]
  by (simp add: population_std_def sample_std_def sum_sq_dev_def)

text \<open>
  C5 as stated fails: for the two members 0 and 2 the code gives 1, the population
  standard deviation, and not the sample standard deviation \<open>sqrt 2\<close>.
\<close>

theorem da_std_sample_counterexample:
  "da_std [Fin 0, Fin 2] = Fin 1 \<and> sample_std [0, 2] = sqrt 2
   \<and> da_std [Fin 0, Fin 2] \<noteq> Fin (sample_std [0, 2])"
  using da_std_0_2 by (simp add: sample_std_def sum_sq_dev_def)

section \<open>An ensemble without spread\<close>

lemma da_std_1_1: "da_std [Fin 1, Fin 1] = Fin 0"
  using da_std_replicate[of "Suc (Suc 0)" 1] by simp

lemma da_std_10_5: "da_std (replicate 10 (Fin 5)) = Fin 0"
  using da_std_replicate[of 10 5] by simp

text \<open>
  C6 (as amended). Where the standard deviation computed across the members is 0, the
  computation returns NaN for each of the three probabilities and for
  \<open>tercile_prob_max\<close>, whatever the boundaries; it raises nothing.
\<close>

theorem zero_spread_gives_nan:
  assumes "da_std members = Fin 0"
  shows "tercile_prob Phi members f_lowmid f_midhigh = [NaN, NaN, NaN]
       \<and> tercile_prob_max (tercile_prob Phi members f_lowmid f_midhigh) = NaN"
proof -
  have tp: "tercile_prob Phi members f_lowmid f_midhigh = [NaN, NaN, NaN]"
    by (simp add: tercile_prob_def assms norm_cdf_def fsub_def)
  have "tercile_prob_max [NaN, NaN, NaN] = NaN"
    by (simp add: tercile_prob_max_def idxmax_def nanmax_def nanargmax_def)
  with tp show ?thesis by simp
qed

theorem zero_spread_gives_nan_witness:
  "da_std [Fin 1, Fin 1] = Fin 0
   \<and> tercile_prob ndtr [Fin 1, Fin 1] (Fin 0) (Fin 2) = [NaN, NaN, NaN]"
  using zero_spread_gives_nan[OF da_std_1_1, of ndtr "Fin 0" "Fin 2"] da_std_1_1 by simp

text \<open>
  C6 as stated fails in its own scenario: 10 members all equal to 5.0 have the
  standard deviation 0, and with the boundaries 3.0 and 7.0 they give NaN three times,
  not the triple (0, 1, 0).
\<close>

theorem zero_spread_counterexample:
  "da_std (replicate 10 (Fin 5)) = Fin 0
   \<and> tercile_prob ndtr (replicate 10 (Fin 5)) (Fin 3) (Fin 7) = [NaN, NaN, NaN]
   \<and> list_ex isnan (tercile_prob ndtr (replicate 10 (Fin 5)) (Fin 3) (Fin 7))
   \<and> tercile_prob ndtr (replicate 10 (Fin 5)) (Fin 3) (Fin 7) \<noteq> [Fin 0, Fin 1, Fin 0]"
  unfolding tercile_prob_zero_spread using da_std_10_5 by simp

section \<open>The dominant category\<close>

lemma nanargmax3:
  "nanargmax [Fin l, Fin m, Fin u] =
     (if l < m then (if m < u then Some (2, Fin u) else Some (1, Fin m))
      else (if l < u then Some (2, Fin u) else Some (0, Fin l)))"
  by (simp add: nanargmax_def)

lemma nanmax3: "nanmax [Fin l, Fin m, Fin u] = Fin (max l (max m u))"
  by (simp add: nanmax_def nanargmax3 max_def)

lemma idxmax3:
  "idxmax tercile [Fin l, Fin m, Fin u] =
     (if l < m then (if m < u then Fin 1 else Fin 0)
      else (if l < u then Fin 1 else Fin (- 1)))"
  by (simp add: idxmax_def nanargmax3 tercile_def)

lemma tercile_nth: "tercile ! 0 = - 1" "tercile ! Suc 0 = 0" "tercile ! 2 = 1"
  by (simp_all add: tercile_def)

lemma idxmax_first_max_label:
  "idxmax tercile [Fin l, Fin m, Fin u] = Fin (first_max_label l m u)"
  by (simp add: idxmax3 first_max_label_def max_def)

text \<open>
  C4 (as amended). For three probabilities that are numbers with a positive maximum,
  the category selected is the first, in the order of the labels \<open>[-1, 0, 1]\<close>, that
  attains the maximum, and \<open>tercile_prob_max\<close> is its label times the maximum. Its
  sign is the sign of that label. Its absolute value is the maximum when the lower or
  the upper category is the one selected, and 0 when the middle category is.
\<close>

theorem tercile_prob_max_signed:
  assumes "0 < max l (max m u)"
  shows "idxmax tercile [Fin l, Fin m, Fin u] = Fin (first_max_label l m u)
       \<and> nanmax [Fin l, Fin m, Fin u] = Fin (max l (max m u))
       \<and> tercile_prob_max [Fin l, Fin m, Fin u] = Fin (first_max_label l m u * max l (max m u))
       \<and> fsign (tercile_prob_max [Fin l, Fin m, Fin u]) = Fin (sgn (first_max_label l m u))
       \<and> fabs (tercile_prob_max [Fin l, Fin m, Fin u])
           = Fin (if first_max_label l m u = 0 then 0 else max l (max m u))"
proof -
  define M where "M = max l (max m u)"
  define k where "k = first_max_label l m u"
  have k: "k = - 1 \<or> k = 0 \<or> k = 1" by (simp add: k_def first_max_label_def)
  have pos: "0 < M" using assms by (simp add: M_def)
  have tpm: "tercile_prob_max [Fin l, Fin m, Fin u] = Fin (k * M)"
    by (simp add: tercile_prob_max_def idxmax_first_max_label nanmax3 k_def M_def)
  have "sgn (k * M) = sgn k" using pos by (simp add: sgn_mult)
  moreover have "\<bar>k * M\<bar> = (if k = 0 then 0 else M)" using k pos by (auto simp: abs_mult)
  ultimately show ?thesis
    using tpm by (simp add: idxmax_first_max_label nanmax3 k_def[symmetric] M_def[symmetric])
qed

theorem tercile_prob_max_signed_witness:
  "(0::real) < max (1/2) (max (1/4) (1/4))
   \<and> idxmax tercile [Fin (1/2), Fin (1/4), Fin (1/4)] = Fin (- 1)
   \<and> tercile_prob_max [Fin (1/2), Fin (1/4), Fin (1/4)] = Fin (- (1/2))
   \<and> fabs (tercile_prob_max [Fin (1/2), Fin (1/4), Fin (1/4)]) = Fin (1/2)"
  using tercile_prob_max_signed[of "1/2" "1/4" "1/4"] by (simp add: first_max_label_def)

text \<open>
  C4 as stated fails where the middle category has the largest probability: for
  (0.2, 0.6, 0.2) the result is 0, whose absolute value is not the maximum 0.6.
\<close>

theorem tercile_prob_max_magnitude_counterexample:
  "tercile_prob_max [Fin (1/5), Fin (3/5), Fin (1/5)] = Fin 0
   \<and> nanmax [Fin (1/5), Fin (3/5), Fin (1/5)] = Fin (3/5)
   \<and> fabs (tercile_prob_max [Fin (1/5), Fin (3/5), Fin (1/5)])
       \<noteq> nanmax [Fin (1/5), Fin (3/5), Fin (1/5)]"
  by (simp add: tercile_prob_max_def nanmax3 idxmax3)

text \<open>
  C9. Among the three categories in the order of the labels \<open>[-1, 0, 1]\<close>, the one
  selected is the first that attains the maximum: if position \<open>i\<close> attains it and no
  earlier position does, the label is \<open>tercile ! i\<close> and the result is that label times
  the maximum, also when later positions tie with it.
\<close>

theorem idxmax_first_maximum:
  assumes "i < 3" and "[l, m, u] ! i = max l (max m u)"
      and "\<forall>j<i. [l, m, u] ! j \<noteq> max l (max m u)"
  shows "idxmax tercile [Fin l, Fin m, Fin u] = Fin (tercile ! i)
       \<and> tercile_prob_max [Fin l, Fin m, Fin u] = Fin (tercile ! i * max l (max m u))"
proof -
  from assms(1) consider "i = 0" | "i = 1" | "i = 2" by linarith
  then show ?thesis
  proof cases
    case 1
    with assms(2) show ?thesis
      by (simp add: tercile_prob_max_def nanmax3 idxmax3 tercile_nth max_def split: if_splits)
  next
    case 2
    with assms(2,3) have "m = max l (max m u)" "l \<noteq> max l (max m u)" by auto
    then show ?thesis using 2
      by (simp add: tercile_prob_max_def nanmax3 idxmax3 tercile_nth max_def split: if_splits)
  next
    case 3
    have "(0::nat) < i" "(1::nat) < i" using 3 by simp_all
    with assms(3) have "[l, m, u] ! 0 \<noteq> max l (max m u)" "[l, m, u] ! 1 \<noteq> max l (max m u)"
      by blast+
    with assms(2) 3 have "u = max l (max m u)" "l \<noteq> max l (max m u)" "m \<noteq> max l (max m u)"
      by simp_all
    then show ?thesis using 3
      by (simp add: tercile_prob_max_def nanmax3 idxmax3 tercile_nth max_def split: if_splits)
  qed
qed

theorem idxmax_first_maximum_witness:
  "idxmax tercile [Fin (2/5), Fin (2/5), Fin (1/5)] = Fin (- 1)
   \<and> idxmax tercile [Fin (1/5), Fin (2/5), Fin (2/5)] = Fin 0
   \<and> tercile_prob_max [Fin (2/5), Fin (1/5), Fin (2/5)] = Fin (- (2/5))"
  using idxmax_first_maximum[of 0 "2/5" "2/5" "1/5"]
        idxmax_first_maximum[of 1 "1/5" "2/5" "2/5"]
        idxmax_first_maximum[of 0 "2/5" "1/5" "2/5"]
  by (simp add: tercile_nth)

section \<open>The file selected by \<open>get_mom6\<close>\<close>

lemma str_3: "str_int 3 = ''3''"
  by (simp add: str_int_def str_nat.simps digit_char_def)

lemma str_2020: "str_int 2020 = ''2020''"
  by (simp add: str_int_def str_nat.simps digit_char_def)

lemma hindcast_regrid:
  "mom6_hindcast ''/Datasets.private/regional_mom6/hindcast/regrid/'' =
    [''/Datasets.private/regional_mom6/hindcast/regrid/tob_forecasts_i3.nc'',
     ''/Datasets.private/regional_mom6/hindcast/regrid/tob_forecasts_i6.nc'',
     ''/Datasets.private/regional_mom6/hindcast/regrid/tob_forecasts_i9.nc'',
     ''/Datasets.private/regional_mom6/hindcast/regrid/tob_forecasts_i12.nc'',
     ''/Datasets.private/regional_mom6/hindcast/regrid/tos_forecasts_i3.nc'',
     ''/Datasets.private/regional_mom6/hindcast/regrid/tos_forecasts_i6.nc'',
     ''/Datasets.private/regional_mom6/hindcast/regrid/tos_forecasts_i9.nc'',
     ''/Datasets.private/regional_mom6/hindcast/regrid/tos_forecasts_i12.nc'']"
  by (simp add: mom6_hindcast_def str_int_def str_nat.simps digit_char_def)

lemma select_file_matches:
  "select_file self d f = (if matches self f then Some (opened self f) else d)"
  by (simp add: select_file_def matches_def opened_def)

text \<open>The loop leaves \<open>ds\<close> bound to the last file of the list that passes the test.\<close>

lemma select_loop_last:
  "foldl (select_file self) d files =
     (if filter (matches self) files = [] then d
      else Some (opened self (last (filter (matches self) files))))"
proof (induction files rule: rev_induct)
  case Nil
  then show ?case by simp
next
  case (snoc f files)
  then show ?case by (simp add: select_file_matches)
qed

lemma matching_files_filter:
  "matching_files self = filter (matches self) (mom6_hindcast (mom6_dir_of (source self)))"
  unfolding matching_files_def matches_def ..

lemma matching_to_3:
  "matching_files \<lparr>iyear = 2020, imonth = 3, var = ''to'', source = ''regrid''\<rparr> =
     [''/Datasets.private/regional_mom6/hindcast/regrid/tob_forecasts_i3.nc'',
      ''/Datasets.private/regional_mom6/hindcast/regrid/tos_forecasts_i3.nc'']"
  by (simp add: matching_files_def mom6_dir_of_def hindcast_regrid str_3)

lemma matching_sst_3:
  "matching_files \<lparr>iyear = 2020, imonth = 3, var = ''sst'', source = ''regrid''\<rparr> = []"
  by (simp add: matching_files_def mom6_dir_of_def hindcast_regrid str_3)

lemma get_tos_3:
  "get_mom6 \<lparr>iyear = 2020, imonth = 3, var = ''tos'', source = ''regrid''\<rparr>
    = Inr \<lparr>ds_file = ''/Datasets.private/regional_mom6/hindcast/regrid/tos_forecasts_i3.nc'',
           ds_init = ''2020-3'', ds_static = False\<rparr>"
  by (simp add: get_mom6_def hindcast_regrid select_file_def str_3 str_2020)

text \<open>
  C8 (as amended). With the source \<^verbatim>\<open>'raw'\<close> or \<^verbatim>\<open>'regrid'\<close>: when no file of the list
  passes the test, \<open>get_mom6\<close> fails with Python's \<^verbatim>\<open>UnboundLocalError\<close>, so no value
  reaches the caller; when one or more files pass, it fails in no way and returns the
  dataset opened from the last of them in the order of the list.
\<close>

theorem get_mom6_last_match:
  assumes "source self = ''raw'' \<or> source self = ''regrid''"
  shows "get_mom6 self =
     (if matching_files self = [] then Inl UnboundLocalError
      else Inr \<lparr>ds_file = last (matching_files self),
                ds_init = str_int (iyear self) @ ''-'' @ str_int (imonth self),
                ds_static = (source self = ''raw'')\<rparr>)"
  using assms
  by (auto simp: get_mom6_def matching_files_filter mom6_dir_of_def select_loop_last opened_def)

theorem get_mom6_last_match_witness:
  "get_mom6 \<lparr>iyear = 2020, imonth = 3, var = ''sst'', source = ''regrid''\<rparr> = Inl UnboundLocalError
   \<and> get_mom6 \<lparr>iyear = 2020, imonth = 3, var = ''to'', source = ''regrid''\<rparr> =
       Inr \<lparr>ds_file = ''/Datasets.private/regional_mom6/hindcast/regrid/tos_forecasts_i3.nc'',
            ds_init = ''2020-3'', ds_static = False\<rparr>"
  using get_mom6_last_match[of "\<lparr>iyear = 2020, imonth = 3, var = ''sst'', source = ''regrid''\<rparr>"]
        get_mom6_last_match[of "\<lparr>iyear = 2020, imonth = 3, var = ''to'', source = ''regrid''\<rparr>"]
  by (simp add: matching_to_3 matching_sst_3 str_3 str_2020)

text \<open>
  C8 as stated fails: for the variable name \<^verbatim>\<open>'to'\<close> and the month 3 two files of the
  list pass the test (\<^verbatim>\<open>tob_forecasts_i3.nc\<close> and \<^verbatim>\<open>tos_forecasts_i3.nc\<close>), and the call
  returns the dataset of the second instead of failing.
\<close>

theorem get_mom6_ambiguous_counterexample:
  "length (matching_files \<lparr>iyear = 2020, imonth = 3, var = ''to'', source = ''regrid''\<rparr>) = 2
   \<and> get_mom6 \<lparr>iyear = 2020, imonth = 3, var = ''to'', source = ''regrid''\<rparr> =
       Inr \<lparr>ds_file = ''/Datasets.private/regional_mom6/hindcast/regrid/tos_forecasts_i3.nc'',
            ds_init = ''2020-3'', ds_static = False\<rparr>"
  by (simp add: matching_to_3 get_mom6_def hindcast_regrid select_file_def str_3 str_2020)

lemma select_file_year:
  assumes "map_option ds_file d1 = map_option ds_file d2"
  shows "map_option ds_file (select_file (self\<lparr>iyear := ya\<rparr>) d1 f)
       = map_option ds_file (select_file (self\<lparr>iyear := yb\<rparr>) d2 f)"
  using assms by (simp add: select_file_def Let_def)

lemma select_loop_year:
  assumes "map_option ds_file d1 = map_option ds_file d2"
  shows "map_option ds_file (foldl (select_file (self\<lparr>iyear := ya\<rparr>)) d1 files)
       = map_option ds_file (foldl (select_file (self\<lparr>iyear := yb\<rparr>)) d2 files)"
  using assms
proof (induction files arbitrary: d1 d2)
  case Nil
  then show ?case by simp
next
  case (Cons f files)
  show ?case
    unfolding foldl_Cons
    by (rule Cons.IH) (rule select_file_year[OF Cons.prems])
qed

lemma opened_file_get_mom6:
  "opened_file (get_mom6 self) =
     (if source self = ''raw'' \<or> source self = ''regrid''
      then (case map_option ds_file
                  (foldl (select_file self) None (mom6_hindcast (mom6_dir_of (source self)))) of
              None \<Rightarrow> Inl UnboundLocalError
            | Some f \<Rightarrow> Inr f)
      else Inl UnboundLocalError)"
  by (simp add: opened_file_def get_mom6_def mom6_dir_of_def split: option.splits)

text \<open>
  C10. Two requests that differ only in the initialization year open the same file (or
  both fail): the pass of the loop computes \<open>iyear_flag\<close> and never reads it, so the
  year reaches only the \<^verbatim>\<open>init\<close> label selected in the opened dataset.
\<close>

theorem get_mom6_ignores_year:
  "opened_file (get_mom6 (self\<lparr>iyear := ya\<rparr>)) = opened_file (get_mom6 (self\<lparr>iyear := yb\<rparr>))"
proof -
  have "map_option ds_file (foldl (select_file (self\<lparr>iyear := ya\<rparr>)) None files)
      = map_option ds_file (foldl (select_file (self\<lparr>iyear := yb\<rparr>)) None files)" for files
    by (rule select_loop_year) simp
  then show ?thesis
    unfolding opened_file_get_mom6 by simp
qed

theorem get_mom6_ignores_year_witness:
  "opened_file (get_mom6 \<lparr>iyear = 1993, imonth = 3, var = ''tos'', source = ''regrid''\<rparr>)
     = Inr ''/Datasets.private/regional_mom6/hindcast/regrid/tos_forecasts_i3.nc''
   \<and> opened_file (get_mom6 \<lparr>iyear = 2020, imonth = 3, var = ''tos'', source = ''regrid''\<rparr>)
     = Inr ''/Datasets.private/regional_mom6/hindcast/regrid/tos_forecasts_i3.nc''"
  using get_mom6_ignores_year[where self = "\<lparr>iyear = 0, imonth = 3, var = ''tos'', source = ''regrid''\<rparr>"
                                and ya = 1993 and yb = 2020]
  by (simp add: get_tos_3 opened_file_def)

section \<open>Lead-time binning of the 12-point axis\<close>









section \<open>Quantiles of a pooled sample\<close>

lemma finsort_Fin: "finsort (Fin x) (map Fin rs) = map Fin (insort x rs)"
  by (induction rs) simp_all

lemma fsort_Fin: "fsort (map Fin rs) = map Fin (sort rs)"
  unfolding fsort_def by (induction rs) (simp_all add: finsort_Fin)

lemma lerp_Fin: "lerp (Fin a) (Fin b) t = Fin (a + (b - a) * t)"
  by (simp add: lerp_def fsub_def algebra_simps)

lemma nanquantile_Fin:
  assumes "dropna xs = map Fin rs" and "rs \<noteq> []" and "0 \<le> q" and "q \<le> 1"
  shows "nanquantile q xs = Fin (quantile_sorted q (sort rs))"
proof -
  define n where "n = length rs"
  define h where "h = q * real (n - 1)"
  define j where "j = nat \<lfloor>h\<rfloor>"
  have npos: "0 < n" using assms(2) by (simp add: n_def)
  have h0: "0 \<le> h" using assms(3) by (simp add: h_def)
  have "h \<le> real (n - 1)" unfolding h_def using assms(3,4) by (simp add: mult_left_le_one_le)
  then have "\<lfloor>h\<rfloor> \<le> int (n - 1)" by (simp add: floor_le_iff)
  then have j: "j \<le> n - 1" unfolding j_def by simp
  then have jn: "j < n" "min (j + 1) (n - 1) < n" using npos by auto
  have len: "length (sort rs) = n" by (simp add: n_def)
  have arr: "fsort (dropna xs) = map Fin (sort rs)"
    by (simp add: assms(1) fsort_Fin)
  have "nanquantile q xs =
      lerp ((map Fin (sort rs)) ! j) ((map Fin (sort rs)) ! (min (j + 1) (n - 1))) (h - real j)"
    unfolding nanquantile_def arr Let_def length_map length_sort
      n_def[symmetric] h_def[symmetric] j_def[symmetric]
    using npos by simp
  also have "\<dots> = Fin (sort rs ! j + (sort rs ! (min (j + 1) (n - 1)) - sort rs ! j) * (h - real j))"
    using jn len by (simp add: lerp_Fin)
  also have "\<dots> = Fin (quantile_sorted q (sort rs))"
    by (simp add: quantile_sorted_def Let_def h_def j_def n_def)
  finally show ?thesis .
qed

lemma quantile_sorted_mono:
  assumes "sorted ys" and "ys \<noteq> []" and "0 \<le> p" and "p \<le> q" and "q \<le> 1"
  shows "quantile_sorted p ys \<le> quantile_sorted q ys"
proof -
  define n where "n = length ys"
  define Q where "Q = (\<lambda>h. ys ! nat \<lfloor>h\<rfloor>
      + (ys ! (min (nat \<lfloor>h\<rfloor> + 1) (n - 1)) - ys ! nat \<lfloor>h\<rfloor>) * (h - real (nat \<lfloor>h\<rfloor>)))"
  have npos: "0 < n" using assms(2) by (simp add: n_def)
  have between: "ys ! nat \<lfloor>h\<rfloor> \<le> Q h \<and> Q h \<le> ys ! (min (nat \<lfloor>h\<rfloor> + 1) (n - 1))"
    if h: "0 \<le> h" "h \<le> real (n - 1)" for h
  proof -
    define j where "j = nat \<lfloor>h\<rfloor>"
    define t where "t = h - real j"
    have "\<lfloor>h\<rfloor> \<le> int (n - 1)" using h(2) by (simp add: floor_le_iff)
    then have j: "j \<le> n - 1" unfolding j_def by simp
    have rj: "real j = of_int \<lfloor>h\<rfloor>" unfolding j_def using h(1) by simp
    have t: "0 \<le> t" "t \<le> 1" unfolding t_def rj by linarith+
    have "j \<le> min (j + 1) (n - 1)" "min (j + 1) (n - 1) < n"
      using j npos by linarith+
    then have "j \<le> min (j + 1) (n - 1)" "min (j + 1) (n - 1) < length ys"
      unfolding n_def by blast+
    then have ab: "ys ! j \<le> ys ! (min (j + 1) (n - 1))"
      using assms(1) by (intro sorted_nth_mono)
    define d where "d = ys ! (min (j + 1) (n - 1)) - ys ! j"
    have d: "0 \<le> d" using ab by (simp add: d_def)
    have "0 \<le> d * t" using d t by simp
    moreover have "d * t \<le> d" using d t by (simp add: mult_left_le)
    ultimately show ?thesis
      unfolding Q_def j_def[symmetric] t_def[symmetric] d_def[symmetric]
      by (simp add: d_def)
  qed
  have mono: "Q h1 \<le> Q h2" if h: "0 \<le> h1" "h1 \<le> h2" "h2 \<le> real (n - 1)" for h1 h2
  proof -
    define j1 where "j1 = nat \<lfloor>h1\<rfloor>"
    define j2 where "j2 = nat \<lfloor>h2\<rfloor>"
    have j12: "j1 \<le> j2" unfolding j1_def j2_def using h(2) by (simp add: floor_mono nat_mono)
    have "\<lfloor>h2\<rfloor> \<le> int (n - 1)" using h(3) by (simp add: floor_le_iff)
    then have j2n: "j2 \<le> n - 1" unfolding j2_def by simp
    show ?thesis
    proof (cases "j1 = j2")
      case True
      have "j1 \<le> min (j1 + 1) (n - 1)" "min (j1 + 1) (n - 1) < n"
        using j2n True npos by linarith+
      then have "j1 \<le> min (j1 + 1) (n - 1)" "min (j1 + 1) (n - 1) < length ys"
        unfolding n_def by blast+
      then have ab: "ys ! j1 \<le> ys ! (min (j1 + 1) (n - 1))"
        using assms(1) by (intro sorted_nth_mono)
      have "(ys ! (min (j1 + 1) (n - 1)) - ys ! j1) * (h1 - real j1)
          \<le> (ys ! (min (j1 + 1) (n - 1)) - ys ! j1) * (h2 - real j1)"
        using ab h(2) by (intro mult_left_mono) auto
      then show ?thesis
        unfolding Q_def j1_def[symmetric] j2_def[symmetric] True[symmetric] by simp
    next
      case False
      with j12 have lt: "j1 + 1 \<le> j2" by simp
      have "Q h1 \<le> ys ! (min (j1 + 1) (n - 1))"
        using between[of h1] h unfolding j1_def by simp
      also have "min (j1 + 1) (n - 1) = j1 + 1" using lt j2n by simp
      also have "ys ! (j1 + 1) \<le> ys ! j2"
      proof -
        have "j2 < n" using j2n npos by linarith
        then have "j2 < length ys" unfolding n_def .
        with assms(1) lt show ?thesis by (intro sorted_nth_mono)
      qed
      also have "ys ! j2 \<le> Q h2"
        using between[of h2] h unfolding j2_def by simp
      finally show ?thesis .
    qed
  qed
  have "quantile_sorted p ys = Q (p * real (n - 1))" "quantile_sorted q ys = Q (q * real (n - 1))"
    by (simp_all add: quantile_sorted_def Q_def Let_def n_def)
  moreover have "Q (p * real (n - 1)) \<le> Q (q * real (n - 1))"
    using assms(3,4,5) by (intro mono) (auto simp: mult_right_mono mult_left_le_one_le)
  ultimately show ?thesis by simp
qed

lemma da_tercile_ordered:
  assumes "dropna allens = map Fin rs" and "rs \<noteq> []"
  shows "\<exists>lo hi. da_tercile allens = (Fin lo, Fin hi) \<and> lo \<le> hi"
proof -
  have "nanquantile (1 / 3) allens = Fin (quantile_sorted (1 / 3) (sort rs))"
    using assms by (intro nanquantile_Fin) auto
  moreover have "nanquantile (2 / 3) allens = Fin (quantile_sorted (2 / 3) (sort rs))"
    using assms by (intro nanquantile_Fin) auto
  moreover have "sort rs \<noteq> []" using assms(2) by (metis length_0_conv length_sort)
  then have "quantile_sorted (1 / 3) (sort rs) \<le> quantile_sorted (2 / 3) (sort rs)"
    by (intro quantile_sorted_mono) auto
  ultimately show ?thesis by (simp add: da_tercile_def)
qed

section \<open>The loop over the regions\<close>

lemma dropna_fin_or_nan:
  "list_all fin_or_nan xs \<Longrightarrow> \<exists>rs. dropna xs = map Fin rs"
proof (induction xs)
  case Nil
  then show ?case by (simp add: dropna_def)
next
  case (Cons x xs)
  then obtain rs where rs: "dropna xs = map Fin rs" by auto
  show ?case
  proof (cases x)
    case NaN
    with rs show ?thesis by (auto simp: dropna_def)
  next
    case (Infty s)
    with Cons.prems show ?thesis by simp
  next
    case (Fin r)
    with rs have "dropna (x # xs) = map Fin (r # rs)" by (simp add: dropna_def)
    then show ?thesis by blast
  qed
qed

lemma nansum_fin_or_nan: "list_all fin_or_nan xs \<Longrightarrow> \<exists>r. nansum xs = Fin r"
  using dropna_fin_or_nan[of xs] by (auto simp: nansum_def fsum_Fin)

lemma fmul_fin_or_nan: "fin_or_nan a \<Longrightarrow> fin_or_nan b \<Longrightarrow> fin_or_nan (fmul a b)"
  by (cases a; cases b) simp_all

lemma products2_ok:
  assumes "fin_or_nan v" and "list_all fin_or_nan ks" and "list_all fin_or_nan as"
  shows "list_all fin_or_nan (map (\<lambda>(k, a). fmul (fmul v k) a) (zip ks as))"
  using assms
  by (auto simp: list_all_iff intro!: fmul_fin_or_nan elim!: in_set_zipE)

lemma products3_ok:
  assumes "list_all fin_or_nan vs" and "list_all fin_or_nan ks" and "list_all fin_or_nan as"
  shows "list_all fin_or_nan (map (\<lambda>(v, k, a). fmul (fmul v k) a) (zip vs (zip ks as)))"
  using assms
  by (auto simp: list_all_iff intro!: fmul_fin_or_nan elim!: in_set_zipE)

lemma is_fin_fin_or_nan: "is_fin v \<Longrightarrow> fin_or_nan v"
  by (cases v) simp_all

lemma weighted_sum_finite:
  assumes "field_ok d" and "list_all fin_or_nan ks" and "list_all fin_or_nan as"
  shows "\<exists>r. weighted_sum d ks as = Fin r"
proof (cases d)
  case (Grid vs)
  with assms show ?thesis
    by (simp add: nansum_fin_or_nan products3_ok)
next
  case (Scalar v)
  with assms show ?thesis
    by (simp add: nansum_fin_or_nan products2_ok is_fin_fin_or_nan)
qed

lemma regional_mean_finite:
  assumes "field_ok d" and "list_all fin_or_nan ks" and "list_all fin_or_nan as"
      and "nonzero (mask_area ks as)"
  shows "is_fin (regional_mean d ks as)"
proof -
  obtain r where r: "weighted_sum d ks as = Fin r"
    using weighted_sum_finite[OF assms(1,2,3)] by blast
  from assms(4) obtain s where s: "mask_area ks as = Fin s" "s \<noteq> 0"
    by (cases "mask_area ks as") simp_all
  show ?thesis by (simp add: regional_mean_def r s)
qed

lemma is_fin_list: "list_all is_fin xs \<Longrightarrow> \<exists>rs. xs = map Fin rs \<and> length rs = length xs"
proof (induction xs)
  case Nil
  then show ?case by simp
next
  case (Cons x xs)
  then obtain rs where rs: "xs = map Fin rs" "length rs = length xs" by auto
  from Cons.prems obtain r where "x = Fin r" by (cases x) simp_all
  with rs have "x # xs = map Fin (r # rs) \<and> length (r # rs) = length (x # xs)" by simp
  then show ?case by (rule exI)
qed

lemma region_body_inv:
  assumes "loop_inv n st" and "0 < n" and "list_all fin_or_nan da_area"
      and "region_ok da_area entry"
  shows "loop_inv n (region_body da_area st entry)"
proof (cases "fst entry = ''areacello''")
  case True
  with assms(1) show ?thesis by (simp add: region_body_def)
next
  case False
  define means where "means = map (\<lambda>d. regional_mean d (snd entry) da_area) (da st)"
  from False assms(4) have ok: "list_all fin_or_nan (snd entry)" "nonzero (mask_area (snd entry) da_area)"
    by (simp_all add: region_ok_def)
  have "list_all is_fin means"
    using assms(1) regional_mean_finite[OF _ ok(1) assms(3) ok(2)]
    by (auto simp: means_def loop_inv_def list_all_iff)
  from is_fin_list[OF this] obtain rs where rs: "means = map Fin rs" "length rs = length means"
    by blast
  have len: "length means = n" using assms(1) by (simp add: means_def loop_inv_def)
  with rs assms(2) have ne: "rs \<noteq> []" by auto
  have "dropna means = map Fin rs" by (simp add: rs(1) dropna_Fin)
  from da_tercile_ordered[OF this ne] obtain lo hi where
    t: "da_tercile means = (Fin lo, Fin hi)" "lo \<le> hi" by blast
  have body: "region_body da_area st entry =
      \<lparr>da = map Scalar means, reg_tercile_list = reg_tercile_list st @ [da_tercile means],
       reg_list = reg_list st @ [fst entry]\<rparr>"
    using False by (simp add: region_body_def means_def Let_def)
  have "list_all field_ok (map Scalar means)"
    using \<open>list_all is_fin means\<close> by (simp add: list_all_iff)
  then show ?thesis
    using assms(1) len t unfolding body loop_inv_def by simp
qed

lemma region_loop_inv:
  assumes "loop_inv n st" and "0 < n" and "list_all fin_or_nan da_area"
      and "list_all (region_ok da_area) entries"
  shows "loop_inv n (foldl (region_body da_area) st entries)"
  using assms(1,4)
proof (induction entries arbitrary: st)
  case Nil
  then show ?case by simp
next
  case (Cons e entries)
  from Cons.prems have "loop_inv n (region_body da_area st e)"
    using region_body_inv[OF _ assms(2,3)] by simp
  with Cons show ?case by simp
qed

text \<open>
  C7 (as amended). Take data that are numbers or missing in every cell, for at least
  one pooled (initialization, member) pair, cell areas that are numbers or missing, and
  regions whose masks are numbers or missing and whose masked area does not sum to 0.
  Then every entry of the boundary dataset has \<open>f_lowmid <= f_midhigh\<close>.
\<close>

theorem regional_tercile_ordered:
  assumes "regional_tercile ds_mask da0 = Inr ds_tercile"
      and "map_of ds_mask ''areacello'' = Some da_area"
      and "list_all fin_or_nan da_area"
      and "list_all (region_ok da_area) ds_mask"
      and "da0 \<noteq> []" and "list_all field_ok da0"
      and "(region, f_lowmid, f_midhigh) \<in> set ds_tercile"
  shows "fle f_lowmid f_midhigh"
proof -
  define st where "st = foldl (region_body da_area)
      \<lparr>da = da0, reg_tercile_list = [], reg_list = []\<rparr> ds_mask"
  have "loop_inv (length da0) \<lparr>da = da0, reg_tercile_list = [], reg_list = []\<rparr>"
    using assms(6) by (simp add: loop_inv_def)
  then have "loop_inv (length da0) st"
    unfolding st_def using assms(3,4,5) by (intro region_loop_inv) auto
  then have ordered: "list_all (\<lambda>t. fle (fst t) (snd t)) (reg_tercile_list st)"
    by (simp add: loop_inv_def)
  from assms(1,2) have "ds_tercile = zip (reg_list st) (reg_tercile_list st)"
    by (auto simp: regional_tercile_def st_def Let_def split: if_splits)
  with assms(7) have "(f_lowmid, f_midhigh) \<in> set (reg_tercile_list st)"
    by (auto dest: set_zip_rightD)
  with ordered show ?thesis by (auto simp: list_all_iff)
qed

lemma da_tercile_3: "da_tercile [Fin 1, Fin 2, Fin 0] = (Fin (2 / 3), Fin (4 / 3))"
proof -
  have d: "dropna [Fin 1, Fin 2, Fin 0] = map Fin [1, 2, 0]" by (simp add: dropna_def)
  have s: "sort [1, 2, 0 :: real] = [0, 1, 2]" by simp
  have "nanquantile (1 / 3) [Fin 1, Fin 2, Fin 0] = Fin (2 / 3)"
    using nanquantile_Fin[OF d, of "1 / 3"] by (simp add: quantile_sorted_def s)
  moreover have "nanquantile (2 / 3) [Fin 1, Fin 2, Fin 0] = Fin (4 / 3)"
    using nanquantile_Fin[OF d, of "2 / 3"] by (simp add: quantile_sorted_def s)
  ultimately show ?thesis by (simp add: da_tercile_def)
qed

lemma da_tercile_1: "da_tercile [Fin x] = (Fin x, Fin x)"
proof -
  have d: "dropna [Fin x] = map Fin [x]" by (simp add: dropna_def)
  show ?thesis
    using nanquantile_Fin[OF d, of "1 / 3"] nanquantile_Fin[OF d, of "2 / 3"]
    by (simp add: da_tercile_def quantile_sorted_def)
qed

lemma da_tercile_NaN: "da_tercile [NaN] = (NaN, NaN)"
  by (simp add: da_tercile_def nanquantile_def dropna_def fsort_def)

lemma means_A:
  "regional_mean (Grid [Fin 1, Fin 3]) [Fin 1, Fin 0] [Fin 1, Fin 1] = Fin 1"
  "regional_mean (Grid [Fin 2, Fin 5]) [Fin 1, Fin 0] [Fin 1, Fin 1] = Fin 2"
  "regional_mean (Grid [NaN, Fin 7]) [Fin 1, Fin 0] [Fin 1, Fin 1] = Fin 0"
  by (simp_all add: regional_mean_def mask_area_def nansum_def dropna_def fsum_def)

lemma means_B:
  "regional_mean (Grid [Fin 1, Fin 3]) [Fin 0, Fin 1] [Fin 1, Fin 1] = Fin 3"
  "regional_mean (Scalar (Fin 1)) [Fin 0, Fin 1] [Fin 1, Fin 1] = Fin 1"
  "regional_mean (Scalar (Fin 3)) [Fin 1, Fin 0] [Fin 1, Fin 1] = Fin 3"
  by (simp_all add: regional_mean_def mask_area_def nansum_def dropna_def fsum_def)

lemma mean_empty_region:
  "regional_mean (Grid [Fin 1, Fin 3]) [Fin 0, Fin 0] [Fin 1, Fin 1] = NaN"
  by (simp add: regional_mean_def mask_area_def nansum_def dropna_def fsum_def)

lemma tercile_A3:
  "regional_tercile [(''areacello'', [Fin 1, Fin 1]), (''A'', [Fin 1, Fin 0])]
      [Grid [Fin 1, Fin 3], Grid [Fin 2, Fin 5], Grid [NaN, Fin 7]]
    = Inr [(''A'', Fin (2 / 3), Fin (4 / 3))]"
  by (simp add: regional_tercile_def region_body_def means_A da_tercile_3)

theorem regional_tercile_ordered_witness:
  "regional_tercile [(''areacello'', [Fin 1, Fin 1]), (''A'', [Fin 1, Fin 0])]
      [Grid [Fin 1, Fin 3], Grid [Fin 2, Fin 5], Grid [NaN, Fin 7]]
    = Inr [(''A'', Fin (2 / 3), Fin (4 / 3))]
   \<and> fle (Fin (2 / 3)) (Fin (4 / 3))"
proof -
  have "fle (Fin (2 / 3)) (Fin (4 / 3))"
    by (rule regional_tercile_ordered[OF tercile_A3, of "[Fin 1, Fin 1]" "''A''"])
       (simp_all add: region_ok_def mask_area_def nansum_def dropna_def fsum_def)
  with tercile_A3 show ?thesis by simp
qed

text \<open>
  C7 as stated fails for a region whose mask selects no cell: its masked area sums to
  0, the regional mean is 0/0 = NaN for every pooled pair, both quantiles are NaN, and
  \<open>NaN <= NaN\<close> is false.
\<close>

theorem regional_tercile_empty_region_counterexample:
  "regional_tercile [(''areacello'', [Fin 1, Fin 1]), (''B'', [Fin 0, Fin 0])] [Grid [Fin 1, Fin 3]]
     = Inr [(''B'', NaN, NaN)]
   \<and> \<not> fle NaN NaN"
  by (simp add: regional_tercile_def region_body_def mean_empty_region da_tercile_NaN)

section \<open>The regional mean is taken of the previous region's mean\<close>

text \<open>
  C2. On a grid of two cells with the values 1 and 3, unit areas, region \<open>A\<close> the first
  cell and region \<open>B\<close> the second, the area-weighted mean of \<open>B\<close> is 3. The loop
  processes \<open>A\<close> first and then takes the mean for \<open>B\<close> of the mean of \<open>A\<close>: both
  regions get the boundaries of the value 1. With \<open>B\<close> first both get those of 3.
\<close>

theorem region_loop_reuses_da:
  "regional_tercile [(''areacello'', [Fin 1, Fin 1]), (''A'', [Fin 1, Fin 0]), (''B'', [Fin 0, Fin 1])]
      [Grid [Fin 1, Fin 3]]
     = Inr [(''A'', Fin 1, Fin 1), (''B'', Fin 1, Fin 1)]
   \<and> regional_tercile [(''areacello'', [Fin 1, Fin 1]), (''B'', [Fin 0, Fin 1]), (''A'', [Fin 1, Fin 0])]
      [Grid [Fin 1, Fin 3]]
     = Inr [(''B'', Fin 3, Fin 3), (''A'', Fin 3, Fin 3)]
   \<and> regional_mean (Grid [Fin 1, Fin 3]) [Fin 0, Fin 1] [Fin 1, Fin 1] = Fin 3
   \<and> da_tercile [Fin 3] = (Fin 3, Fin 3)"
  by (simp add: regional_tercile_def region_body_def means_A means_B da_tercile_1)

end
